theory Spec2Isabelle
  imports Main
begin

section \<open>The health probe: checkBackendWithHttp\<close>

text \<open>
  \<^verbatim>\<open>checkBackendWithHttp\<close> returns a promise and drives it from three event handlers
  registered on each HTTP request (\<^verbatim>\<open>response\<close>, \<^verbatim>\<open>error\<close>, \<^verbatim>\<open>timeout\<close>). The handlers
  share the counter \<^verbatim>\<open>attempts\<close> and the promise's \<^verbatim>\<open>resolve\<close>. The model is the state of
  one call: the counter, the requests issued so far (by index into \<^verbatim>\<open>hostnames\<close>), the
  requests destroyed by the timeout handler, and the promise (\<open>None\<close> while pending).
  The network is the list of events delivered to the handlers, in delivery order.
\<close>

definition hostnames :: "string list" where
  "hostnames = [''127.0.0.1'', ''localhost'']"

datatype http_event =
    Response nat nat   \<comment> \<open>request index, status code\<close>
  | ReqError nat       \<comment> \<open>request index\<close>
  | ReqTimeout nat     \<comment> \<open>request index\<close>

record probe =
  attempts :: nat
  issued :: "nat list"
  destroyed :: "nat list"
  settled :: "bool option"

text \<open>A promise takes the first value it is resolved with; later calls change nothing.\<close>

definition resolve :: "bool \<Rightarrow> probe \<Rightarrow> probe" where
  "resolve v p = (case settled p of None \<Rightarrow> p\<lparr>settled := Some v\<rparr> | Some _ \<Rightarrow> p)"

definition tryConnection :: "nat \<Rightarrow> probe \<Rightarrow> probe" where
  "tryConnection i p = p\<lparr>issued := issued p @ [i]\<rparr>"

definition tryNextHost :: "probe \<Rightarrow> probe" where
  "tryNextHost p =
     (let p' = p\<lparr>attempts := attempts p + 1\<rparr>
      in if attempts p' < length hostnames then tryConnection (attempts p') p'
         else resolve False p')"

text \<open>The body of the promise executor: \<^verbatim>\<open>attempts = 0\<close>, then \<^verbatim>\<open>tryConnection(hostnames[0])\<close>.\<close>

definition checkBackendWithHttp :: probe where
  "checkBackendWithHttp =
     tryConnection 0 \<lparr>attempts = 0, issued = [], destroyed = [], settled = None\<rparr>"

text \<open>
  A request has its handlers from the moment it is issued. Once the timeout handler has
  destroyed it, it emits no response and no further timeout, but it still emits \<^verbatim>\<open>error\<close>.
\<close>

fun listening :: "http_event \<Rightarrow> probe \<Rightarrow> bool" where
  "listening (Response i code) p = (i \<in> set (issued p) \<and> i \<notin> set (destroyed p))"
| "listening (ReqError i) p = (i \<in> set (issued p))"
| "listening (ReqTimeout i) p = (i \<in> set (issued p) \<and> i \<notin> set (destroyed p))"

text \<open>The three handlers that \<^verbatim>\<open>tryConnection\<close> registers.\<close>

fun handler :: "http_event \<Rightarrow> probe \<Rightarrow> probe" where
  "handler (Response i code) p = (if code = 200 then resolve True p else tryNextHost p)"
| "handler (ReqError i) p = tryNextHost p"
| "handler (ReqTimeout i) p = tryNextHost (p\<lparr>destroyed := destroyed p @ [i]\<rparr>)"

definition on_event :: "http_event \<Rightarrow> probe \<Rightarrow> probe" where
  "on_event e p = (if listening e p then handler e p else p)"

fun deliver :: "http_event list \<Rightarrow> probe \<Rightarrow> probe" where
  "deliver [] p = p"
| "deliver (e # es) p = deliver es (on_event e p)"

definition probe_result :: "http_event list \<Rightarrow> bool option" where
  "probe_result es = settled (deliver es checkBackendWithHttp)"

text \<open>Whether some request received a response with status 200.\<close>

fun is_200 :: "http_event \<Rightarrow> bool" where
  "is_200 (Response i code) = (code = 200)"
| "is_200 (ReqError i) = False"
| "is_200 (ReqTimeout i) = False"

fun answered_200 :: "http_event list \<Rightarrow> probe \<Rightarrow> bool" where
  "answered_200 [] p = False"
| "answered_200 (e # es) p =
     (if listening e p \<and> is_200 e then True else answered_200 es (on_event e p))"

text \<open>The number of delivered events that ran a handler.\<close>

fun handled :: "http_event list \<Rightarrow> probe \<Rightarrow> nat" where
  "handled [] p = 0"
| "handled (e # es) p = (if listening e p then 1 else 0) + handled es (on_event e p)"

text \<open>While the promise is pending, \<^verbatim>\<open>attempts\<close> is a valid index of \<^verbatim>\<open>hostnames\<close>.\<close>

definition pending_ok :: "probe \<Rightarrow> bool" where
  "pending_ok p = (settled p = None \<longrightarrow> attempts p < length hostnames)"

section \<open>The tray status refresh and checkBackendStatus\<close>

text \<open>
  The fallback transport: \<^verbatim>\<open>axios.get(`${BACKEND_URL}/health`, { timeout: 3000,
  validateStatus: (status) => status === 200 })\<close>. With this \<^verbatim>\<open>validateStatus\<close> the call
  resolves only on status 200 and rejects on everything else; the rejection is caught and
  leaves \<^verbatim>\<open>isBackendRunning\<close> false.
\<close>

datatype axios_outcome = AxiosStatus nat | AxiosFailed

definition BACKEND_URL :: string where
  "BACKEND_URL = ''http://localhost:7717''"

definition axios_fallback :: "axios_outcome \<Rightarrow> bool" where
  "axios_fallback ax =
     (case ax of AxiosStatus status \<Rightarrow> (if status = 200 then status = 200 else False)
               | AxiosFailed \<Rightarrow> False)"

section \<open>The supervisor: module state and event loop\<close>

text \<open>
  The main process is single-threaded: every callback runs to completion, and an
  \<^verbatim>\<open>async\<close> function gives control back at each \<^verbatim>\<open>await\<close>. The model is a transition
  function over the module's globals, the child processes, and the suspended
  continuations. One event is one turn of the event loop. Children are numbered in spawn
  order. What the operating system and the network decide (which workers the cleanup
  commands terminate, probe results, whether the files exist, when a child closes) is a
  parameter of the event.

  The readiness loop \<^verbatim>\<open>checkReady\<close> only reads \<^verbatim>\<open>backendProcess\<close>, probes and refreshes the
  tray: it never assigns \<^verbatim>\<open>backendProcess\<close> and never spawns or signals a child, and is
  left out. \<open>Tick\<close> is the interval's call of \<^verbatim>\<open>updateTrayMenu\<close>; spawn failures arrive as
  the child's error event. The model has no clock: a timer is the delay it was set with
  and the event of its firing.
\<close>

type_synonym pid = nat

datatype signal = SIGTERM | SIGKILL

datatype effect =
    Cleanup "pid list"   \<comment> \<open>killExistingBackends ran its kill commands; the workers they terminated\<close>
  | Signal pid signal    \<comment> \<open>backendProcess.kill(signal), with the child the handle held\<close>
  | Spawn pid            \<comment> \<open>spawn(pythonExecutable, [mainPyPath], ...)\<close>
  | ErrorBox string      \<comment> \<open>dialog.showErrorBox(title, ...)\<close>
  | AxiosGet string      \<comment> \<open>axios.get(url, ...)\<close>
  | TrayStatus bool      \<comment> \<open>the tray menu rebuilt with this isBackendRunning\<close>
  | RestartKill          \<comment> \<open>restartBackend reaches killExistingBackends()\<close>
  | RestartStop          \<comment> \<open>restartBackend reaches stopBackend()\<close>
  | RestartStart         \<comment> \<open>restartBackend reaches startBackend()\<close>

record supervisor =
  backendProcess :: "pid option"
  mainWindow :: bool
  tray :: bool
  trayDestroyed :: bool
  isQuitting :: bool
  spawned :: nat              \<comment> \<open>spawn calls so far; the next child gets this number\<close>
  live :: "pid list"          \<comment> \<open>children running\<close>
  dying :: "pid list"         \<comment> \<open>children terminated by the cleanup commands, close event not yet delivered\<close>
  startsInCleanup :: nat      \<comment> \<open>startBackend calls suspended at await killExistingBackends()\<close>
  startsInProbe :: nat        \<comment> \<open>startBackend calls suspended at await checkBackendStatus()\<close>
  restartsInCleanup :: nat    \<comment> \<open>restartBackend calls suspended at await killExistingBackends()\<close>
  restartsInSettle :: nat     \<comment> \<open>restartBackend calls suspended at the 3000 ms delay\<close>
  killTimers :: nat           \<comment> \<open>pending 10000 ms timeouts set by stopBackend\<close>
  trayProbes :: nat           \<comment> \<open>updateTrayMenu calls suspended at their probe\<close>
  timeouts :: "nat list"      \<comment> \<open>the delays (ms) of the setTimeout calls below, in call order\<close>
  effects :: "effect list"    \<comment> \<open>what has been done, in order\<close>

datatype event =
    CallStart "pid list"           \<comment> \<open>startBackend() is called; the workers its cleanup commands terminate\<close>
  | StartCleanupDone               \<comment> \<open>the 2000 ms wait of a start's cleanup ends\<close>
  | StartProbeDone bool bool bool  \<comment> \<open>probe result, existsSync(pythonExecutable), existsSync(mainPyPath)\<close>
  | CallStop                       \<comment> \<open>stopBackend() is called\<close>
  | CallRestart "pid list"         \<comment> \<open>restartBackend() is called\<close>
  | RestartCleanupDone             \<comment> \<open>the 2000 ms wait of a restart's cleanup ends\<close>
  | RestartSettleDone "pid list"   \<comment> \<open>the 3000 ms delay of a restart ends\<close>
  | ForceKillTimeout               \<comment> \<open>a 10000 ms timeout set by stopBackend fires\<close>
  | Close pid int                  \<comment> \<open>a child's close event, with its exit code\<close>
  | SpawnFailed pid                \<comment> \<open>a child's error event (its close event follows)\<close>
  | Tick                           \<comment> \<open>the setInterval callback (every 10000 ms)\<close>
  | TrayProbeDone bool axios_outcome  \<comment> \<open>an updateTrayMenu probe resolves; the fallback's outcome\<close>

definition log :: "effect \<Rightarrow> supervisor \<Rightarrow> supervisor" where
  "log x s = s\<lparr>effects := effects s @ [x]\<rparr>"

text \<open>\<^verbatim>\<open>setTimeout(callback, ms)\<close>: the delay is recorded; the callback is one of the
  events above.\<close>

definition setTimeout :: "nat \<Rightarrow> supervisor \<Rightarrow> supervisor" where
  "setTimeout ms s = s\<lparr>timeouts := timeouts s @ [ms]\<rparr>"

text \<open>
  \<^verbatim>\<open>killExistingBackends\<close>: the \<^verbatim>\<open>execSync\<close> kill commands run at once (errors ignored),
  then the function waits 2000 ms. \<open>ks\<close> are the processes the commands hit.
\<close>

definition killExistingBackends :: "pid list \<Rightarrow> supervisor \<Rightarrow> supervisor" where
  "killExistingBackends ks s =
     setTimeout 2000
       (log (Cleanup (filter (\<lambda>p. p \<in> set ks) (live s)))
          (s\<lparr>live := filter (\<lambda>p. p \<notin> set ks) (live s),
             dying := dying s @ filter (\<lambda>p. p \<in> set ks) (live s)\<rparr>))"

text \<open>\<^verbatim>\<open>updateTrayMenu\<close> up to its first \<^verbatim>\<open>await\<close>: it returns at once without a tray,
  and starts a probe otherwise.\<close>

definition updateTrayMenu :: "supervisor \<Rightarrow> supervisor" where
  "updateTrayMenu s =
     (if \<not> tray s \<or> trayDestroyed s then s
      else s\<lparr>trayProbes := trayProbes s + 1\<rparr>)"

text \<open>\<^verbatim>\<open>updateTrayMenu\<close> from the native probe's result on: the fallback is tried when the
  native probe said false, and the menu is rebuilt.\<close>

definition updateTrayMenu_resume :: "bool \<Rightarrow> axios_outcome \<Rightarrow> supervisor \<Rightarrow> supervisor" where
  "updateTrayMenu_resume native ax s =
     (if \<not> native
      then log (TrayStatus (axios_fallback ax)) (log (AxiosGet (BACKEND_URL @ ''/health'')) s)
      else log (TrayStatus native) s)"

text \<open>\<^verbatim>\<open>checkBackendStatus\<close> from the native probe's result on: it refreshes the tray
  and returns the result.\<close>

definition checkBackendStatus :: "bool \<Rightarrow> supervisor \<Rightarrow> bool \<times> supervisor" where
  "checkBackendStatus isRunning s = (isRunning, if tray s then updateTrayMenu s else s)"

definition stopBackend :: "supervisor \<Rightarrow> supervisor" where
  "stopBackend s =
     (case backendProcess s of
        None \<Rightarrow> s
      | Some p \<Rightarrow> (setTimeout 10000 (log (Signal p SIGTERM) s))
                    \<lparr>killTimers := killTimers s + 1, backendProcess := None\<rparr>)"

text \<open>The callback of the timeout set by \<^verbatim>\<open>stopBackend\<close>.\<close>

definition forceKill :: "supervisor \<Rightarrow> supervisor" where
  "forceKill s =
     (case backendProcess s of None \<Rightarrow> s | Some p \<Rightarrow> log (Signal p SIGKILL) s)"

text \<open>\<^verbatim>\<open>startBackend\<close>, in its three segments between awaits.\<close>

definition startBackend :: "pid list \<Rightarrow> supervisor \<Rightarrow> supervisor" where
  "startBackend ks s = (killExistingBackends ks s)\<lparr>startsInCleanup := startsInCleanup s + 1\<rparr>"

definition startBackend_afterCleanup :: "supervisor \<Rightarrow> supervisor" where
  "startBackend_afterCleanup s =
     (if backendProcess s \<noteq> None then s
      else s\<lparr>startsInProbe := startsInProbe s + 1\<rparr>)"

definition spawn :: "supervisor \<Rightarrow> supervisor" where
  "spawn s =
     (log (Spawn (spawned s)) s)\<lparr>backendProcess := Some (spawned s),
                                  live := live s @ [spawned s],
                                  spawned := spawned s + 1\<rparr>"

definition startBackend_afterProbe :: "bool \<Rightarrow> bool \<Rightarrow> bool \<Rightarrow> supervisor \<Rightarrow> supervisor" where
  "startBackend_afterProbe probed pythonExists mainPyExists s =
     (case checkBackendStatus probed s of (isRunning, s1) \<Rightarrow>
        if isRunning then s1
        else if \<not> pythonExists
          then (if mainWindow s1 then log (ErrorBox ''Python Error'') s1 else s1)
        else if \<not> mainPyExists
          then (if mainWindow s1 then log (ErrorBox ''Backend Error'') s1 else s1)
        else spawn s1)"

text \<open>\<^verbatim>\<open>restartBackend\<close>, in its three segments between awaits.\<close>

definition restartBackend :: "pid list \<Rightarrow> supervisor \<Rightarrow> supervisor" where
  "restartBackend ks s =
     (killExistingBackends ks (log RestartKill s))\<lparr>restartsInCleanup := restartsInCleanup s + 1\<rparr>"

definition restartBackend_afterCleanup :: "supervisor \<Rightarrow> supervisor" where
  "restartBackend_afterCleanup s =
     (setTimeout 3000 (stopBackend (log RestartStop s)))
       \<lparr>restartsInSettle := restartsInSettle s + 1\<rparr>"

definition restartBackend_afterSettle :: "pid list \<Rightarrow> supervisor \<Rightarrow> supervisor" where
  "restartBackend_afterSettle ks s = startBackend ks (log RestartStart s)"

text \<open>The \<^verbatim>\<open>close\<close> and \<^verbatim>\<open>error\<close> handlers that \<^verbatim>\<open>startBackend\<close> registers on the child.
  Both assign the module's \<^verbatim>\<open>backendProcess\<close>, whichever child they belong to. A child
  that emitted \<^verbatim>\<open>error\<close> still emits \<^verbatim>\<open>close\<close>, so only the close handler ends its record.\<close>

definition onClose :: "pid \<Rightarrow> int \<Rightarrow> supervisor \<Rightarrow> supervisor" where
  "onClose p code s =
     (let s1 = s\<lparr>backendProcess := None,
                 live := removeAll p (live s), dying := removeAll p (dying s)\<rparr>
      in if code \<noteq> 0 \<and> \<not> isQuitting s1 \<and> tray s1 then updateTrayMenu s1 else s1)"

definition onError :: "pid \<Rightarrow> supervisor \<Rightarrow> supervisor" where
  "onError p s =
     (let s1 = s\<lparr>backendProcess := None\<rparr>
      in if mainWindow s1 then log (ErrorBox ''Backend Startup Error'') s1 else s1)"

text \<open>
  One turn of the event loop. An event that cannot happen in the state (a continuation
  that is not pending, a timer that is not set, a child that does not exist) leaves the
  state as it is.
\<close>

fun step :: "event \<Rightarrow> supervisor \<Rightarrow> supervisor" where
  "step (CallStart ks) s = startBackend ks s"
| "step StartCleanupDone s =
     (if startsInCleanup s = 0 then s
      else startBackend_afterCleanup (s\<lparr>startsInCleanup := startsInCleanup s - 1\<rparr>))"
| "step (StartProbeDone probed pythonExists mainPyExists) s =
     (if startsInProbe s = 0 then s
      else startBackend_afterProbe probed pythonExists mainPyExists
             (s\<lparr>startsInProbe := startsInProbe s - 1\<rparr>))"
| "step CallStop s = stopBackend s"
| "step (CallRestart ks) s = restartBackend ks s"
| "step RestartCleanupDone s =
     (if restartsInCleanup s = 0 then s
      else restartBackend_afterCleanup (s\<lparr>restartsInCleanup := restartsInCleanup s - 1\<rparr>))"
| "step (RestartSettleDone ks) s =
     (if restartsInSettle s = 0 then s
      else restartBackend_afterSettle ks (s\<lparr>restartsInSettle := restartsInSettle s - 1\<rparr>))"
| "step ForceKillTimeout s =
     (if killTimers s = 0 then s
      else forceKill (s\<lparr>killTimers := killTimers s - 1\<rparr>))"
| "step (Close p code) s =
     (if p \<in> set (live s) \<or> p \<in> set (dying s) then onClose p code s else s)"
| "step (SpawnFailed p) s =
     (if p \<in> set (live s) \<or> p \<in> set (dying s) then onError p s else s)"
| "step Tick s = updateTrayMenu s"
| "step (TrayProbeDone native ax) s =
     (if trayProbes s = 0 then s
      else updateTrayMenu_resume native ax (s\<lparr>trayProbes := trayProbes s - 1\<rparr>))"

fun run :: "event list \<Rightarrow> supervisor \<Rightarrow> supervisor" where
  "run [] s = s"
| "run (e # es) s = run es (step e s)"

text \<open>The state when \<^verbatim>\<open>app.whenReady\<close> has created the window and the tray, before any
  worker has been started.\<close>

definition ready :: supervisor where
  "ready = \<lparr>backendProcess = None, mainWindow = True, tray = True, trayDestroyed = False,
            isQuitting = False, spawned = 0, live = [], dying = [],
            startsInCleanup = 0, startsInProbe = 0, restartsInCleanup = 0,
            restartsInSettle = 0, killTimers = 0, trayProbes = 0, timeouts = [],
            effects = []\<rparr>"

text \<open>
  The bookkeeping of \<^verbatim>\<open>restartBackend\<close>: every restart that has reached \<^verbatim>\<open>stopBackend\<close> has
  reached \<^verbatim>\<open>startBackend\<close> or is in its delay, and every restart that has run its cleanup
  has reached \<^verbatim>\<open>stopBackend\<close> or is in its cleanup wait.
\<close>

definition restart_inv :: "supervisor \<Rightarrow> bool" where
  "restart_inv s =
     (count_list (effects s) RestartStop = count_list (effects s) RestartStart + restartsInSettle s
      \<and> count_list (effects s) RestartKill = count_list (effects s) RestartStop + restartsInCleanup s)"

text \<open>Among the effects \<open>xs\<close>, restarts have reached \<^verbatim>\<open>startBackend\<close> at most as often as
  \<^verbatim>\<open>stopBackend\<close>, and \<^verbatim>\<open>stopBackend\<close> at most as often as their cleanup; and the effects
  \<open>ys\<close> hold none of these three marks.\<close>

definition phases_ok :: "effect list \<Rightarrow> bool" where
  "phases_ok xs =
     (count_list xs RestartStart \<le> count_list xs RestartStop
      \<and> count_list xs RestartStop \<le> count_list xs RestartKill)"

definition no_phase :: "effect list \<Rightarrow> bool" where
  "no_phase ys = (count_list ys RestartStart = 0 \<and> count_list ys RestartStop = 0
                  \<and> count_list ys RestartKill = 0)"

text \<open>The handle is not child \<open>p\<close>, child \<open>p\<close> has been spawned, and no SIGKILL has been
  sent to it.\<close>

definition never_killed :: "pid \<Rightarrow> supervisor \<Rightarrow> bool" where
  "never_killed p s =
     (backendProcess s \<noteq> Some p \<and> p < spawned s \<and> Signal p SIGKILL \<notin> set (effects s))"

section \<open>Properties of the probe\<close>

lemma settled_resolve_mono:
  "settled p = Some b \<Longrightarrow> settled (resolve v p) = Some b"
  by (simp add: resolve_def)

lemma settled_tryNextHost_mono:
  "settled p = Some b \<Longrightarrow> settled (tryNextHost p) = Some b"
  by (simp add: tryNextHost_def tryConnection_def resolve_def Let_def)

lemma settled_on_event_mono:
  "settled p = Some b \<Longrightarrow> settled (on_event e p) = Some b"
  by (cases e) (simp_all add: on_event_def settled_resolve_mono settled_tryNextHost_mono)

lemma settled_deliver_mono:
  "settled p = Some b \<Longrightarrow> settled (deliver es p) = Some b"
  by (induction es arbitrary: p) (simp_all add: settled_on_event_mono)

lemma tryNextHost_not_True:
  "settled p \<noteq> Some True \<Longrightarrow> settled (tryNextHost p) \<noteq> Some True"
  by (auto simp: tryNextHost_def tryConnection_def resolve_def Let_def split: option.splits)

lemma on_event_True_is_200:
  "settled p \<noteq> Some True \<Longrightarrow> settled (on_event e p) = Some True \<Longrightarrow> listening e p \<and> is_200 e"
  by (cases e) (auto simp: on_event_def tryNextHost_not_True split: if_splits)

text \<open>The probe says true only if a request received a 200 response.\<close>

lemma deliver_True_answered:
  "settled p \<noteq> Some True \<Longrightarrow> settled (deliver es p) = Some True \<Longrightarrow> answered_200 es p"
proof (induction es arbitrary: p)
  case Nil
  then show ?case by simp
next
  case (Cons e es)
  show ?case
  proof (cases "settled (on_event e p) = Some True")
    case True
    with Cons.prems(1) show ?thesis
      using on_event_True_is_200 by simp
  next
    case False
    with Cons show ?thesis by simp
  qed
qed

lemma probe_true_only_if_answered:
  "probe_result es = Some True \<Longrightarrow> answered_200 es checkBackendWithHttp"
  by (rule deliver_True_answered)
     (simp_all add: probe_result_def checkBackendWithHttp_def tryConnection_def)

text \<open>While the promise is pending, fewer than two handlers have run: the second
  handler run settles it at the latest.\<close>

lemma pending_ok_on_event: "pending_ok p \<Longrightarrow> pending_ok (on_event e p)"
  by (cases e)
     (auto simp: pending_ok_def on_event_def tryNextHost_def tryConnection_def resolve_def
           Let_def split: option.splits)

lemma attempts_on_event:
  "settled (on_event e p) = None \<Longrightarrow>
   attempts (on_event e p) = attempts p + (if listening e p then 1 else 0)"
  by (cases e)
     (auto simp: on_event_def tryNextHost_def tryConnection_def resolve_def
           Let_def split: option.splits if_splits)

lemma attempts_deliver:
  "settled (deliver es p) = None \<Longrightarrow> attempts (deliver es p) = attempts p + handled es p"
proof (induction es arbitrary: p)
  case Nil
  then show ?case by simp
next
  case (Cons e es)
  have pend: "settled (on_event e p) = None"
  proof (cases "settled (on_event e p)")
    case None
    then show ?thesis .
  next
    case (Some b)
    then have "settled (deliver es (on_event e p)) = Some b"
      by (rule settled_deliver_mono)
    with Cons.prems show ?thesis by simp
  qed
  from Cons.prems have "attempts (deliver es (on_event e p)) = attempts (on_event e p) + handled es (on_event e p)"
    using Cons.IH by simp
  with attempts_on_event [OF pend] show ?case by simp
qed

lemma pending_ok_deliver: "pending_ok p \<Longrightarrow> pending_ok (deliver es p)"
  by (induction es arbitrary: p) (simp_all add: pending_ok_on_event)

lemma probe_pending_bound:
  "probe_result es = None \<Longrightarrow> handled es checkBackendWithHttp < 2"
proof -
  assume pend: "probe_result es = None"
  have "pending_ok checkBackendWithHttp"
    by (simp add: pending_ok_def checkBackendWithHttp_def tryConnection_def hostnames_def)
  then have "pending_ok (deliver es checkBackendWithHttp)"
    by (rule pending_ok_deliver)
  with pend have "attempts (deliver es checkBackendWithHttp) < 2"
    by (simp add: pending_ok_def probe_result_def hostnames_def)
  moreover from pend have "attempts (deliver es checkBackendWithHttp)
      = attempts checkBackendWithHttp + handled es checkBackendWithHttp"
    by (simp add: probe_result_def attempts_deliver)
  ultimately show ?thesis by simp
qed

text \<open>
  Claim C2. The claim: the probe resolves true if and only if some candidate host answered
  the request with status 200. What the code does when the request to 127.0.0.1 times out:
  the timeout handler destroys the request and calls \<^verbatim>\<open>tryNextHost\<close>, which issues the
  request to localhost; the destroyed request then emits \<^verbatim>\<open>error\<close>, whose handler calls
  \<^verbatim>\<open>tryNextHost\<close> a second time, so \<^verbatim>\<open>attempts\<close> reaches 2 and the promise resolves false
  while the request to localhost is still open. The 200 that localhost then answers
  reaches \<^verbatim>\<open>resolve(true)\<close>, which no longer has an effect.
\<close>

theorem timeout_then_error_skips_second_host:
  "probe_result [ReqTimeout 0, ReqError 0, Response 1 200] = Some False
   \<and> answered_200 [ReqTimeout 0, ReqError 0, Response 1 200] checkBackendWithHttp"
  by (simp add: probe_result_def checkBackendWithHttp_def on_event_def tryNextHost_def
        tryConnection_def resolve_def hostnames_def Let_def)

section \<open>Properties of the supervisor\<close>

lemmas supervisor_defs =
  startBackend_def startBackend_afterCleanup_def startBackend_afterProbe_def spawn_def
  restartBackend_def restartBackend_afterCleanup_def restartBackend_afterSettle_def
  stopBackend_def forceKill_def killExistingBackends_def checkBackendStatus_def
  updateTrayMenu_def updateTrayMenu_resume_def onClose_def onError_def log_def
  setTimeout_def axios_fallback_def BACKEND_URL_def

text \<open>
  Claim C1. The claim: whatever the interleaving of start and restart calls, at most one
  spawned worker is alive at any time. Two \<^verbatim>\<open>startBackend\<close> calls that overlap both pass
  the \<^verbatim>\<open>if (backendProcess)\<close> test before either has spawned, both get a negative probe,
  and both spawn: children 0 and 1 are alive together, and the handle keeps only child 1.
\<close>

theorem overlapping_starts_spawn_two_workers:
  "live (run [CallStart [], CallStart [], StartCleanupDone, StartCleanupDone,
              StartProbeDone False True True, StartProbeDone False True True] ready) = [0, 1]
   \<and> backendProcess (run [CallStart [], CallStart [], StartCleanupDone, StartCleanupDone,
              StartProbeDone False True True, StartProbeDone False True True] ready) = Some 1"
  by (simp add: ready_def supervisor_defs)

text \<open>
  What \<^verbatim>\<open>stopBackend\<close> does, with or without a handle: with a handle it sends SIGTERM to
  that child, sets one timeout of 10000 ms and clears the handle; without one it does
  nothing. No event other than its own firing takes a pending timeout away.
\<close>

lemma stopBackend_effects:
  "effects (stopBackend s)
     = effects s @ (case backendProcess s of None \<Rightarrow> [] | Some p \<Rightarrow> [Signal p SIGTERM])
   \<and> timeouts (stopBackend s)
     = timeouts s @ (case backendProcess s of None \<Rightarrow> [] | Some p \<Rightarrow> [10000])
   \<and> killTimers (stopBackend s)
     = killTimers s + (case backendProcess s of None \<Rightarrow> 0 | Some p \<Rightarrow> 1)
   \<and> backendProcess (stopBackend s) = None"
  by (simp add: supervisor_defs split: option.splits)

lemma killTimers_step:
  "e \<noteq> ForceKillTimeout \<Longrightarrow> killTimers s \<le> killTimers (step e s)"
  by (cases e) (auto simp: supervisor_defs Let_def split: option.splits)

text \<open>
  Once \<^verbatim>\<open>stopBackend\<close> has run on a worker, no later event sends that worker SIGKILL: the
  handle no longer names it, and a spawn gives the handle a new child.
\<close>

lemma never_killed_step: "never_killed p s \<Longrightarrow> never_killed p (step e s)"
  by (cases e) (auto simp: never_killed_def supervisor_defs Let_def split: option.splits)

lemma never_killed_run: "never_killed p s \<Longrightarrow> never_killed p (run es s)"
  by (induction es arbitrary: s) (simp_all add: never_killed_step)

lemma stopped_worker_gets_no_sigkill:
  assumes "backendProcess s = Some p" and "p < spawned s"
    and "Signal p SIGKILL \<notin> set (effects s)"
  shows "Signal p SIGKILL \<notin> set (effects (run es (stopBackend s)))"
proof -
  from assms have "never_killed p (stopBackend s)"
    by (simp add: never_killed_def supervisor_defs)
  then have "never_killed p (run es (stopBackend s))"
    by (rule never_killed_run)
  then show ?thesis by (simp add: never_killed_def)
qed

text \<open>
  Claim C3. The claim: a stop sends SIGTERM and sets a 10-second timer; a worker that has
  not exited when the timer fires gets SIGKILL; a worker that exits first has the timer
  cleared. The code sets the timer (\<^verbatim>\<open>// Force kill after 10 seconds\<close>) and then assigns
  \<^verbatim>\<open>backendProcess = null\<close>, and the callback tests \<^verbatim>\<open>if (backendProcess)\<close>. At the run
  below worker 0 is started and stopped: SIGTERM is sent and the 10000 ms timeout is set;
  the timeout fires while worker 0 is still running, and no SIGKILL is sent: the only
  signal worker 0 ever gets is SIGTERM. And when worker 0 closes before the timeout
  fires, the timeout is still pending.
\<close>

theorem stop_leaves_worker_without_sigkill:
  "live (run [CallStart [], StartCleanupDone, StartProbeDone False True True,
              CallStop, ForceKillTimeout] ready) = [0]
   \<and> effects (run [CallStart [], StartCleanupDone, StartProbeDone False True True,
              CallStop, ForceKillTimeout] ready) = [Cleanup [], Spawn 0, Signal 0 SIGTERM]
   \<and> timeouts (run [CallStart [], StartCleanupDone, StartProbeDone False True True,
              CallStop, ForceKillTimeout] ready) = [2000, 10000]
   \<and> killTimers (run [CallStart [], StartCleanupDone, StartProbeDone False True True,
              CallStop, Close 0 0] ready) = 1"
  by (simp add: ready_def supervisor_defs)

text \<open>
  Claim C4, as stated: a restart never spawns before the prior worker's exit has been
  confirmed or its force-kill issued. At the run below worker 0 is running; the restart
  sends it SIGTERM, waits its delay and starts; worker 1 is spawned while worker 0 has
  not closed, has been sent no SIGKILL, and the 10-second timeout is still pending.
\<close>

theorem restart_starts_before_exit:
  "live (run [CallStart [], StartCleanupDone, StartProbeDone False True True,
              CallRestart [], RestartCleanupDone, RestartSettleDone [],
              StartCleanupDone, StartProbeDone False True True] ready) = [0, 1]
   \<and> effects (run [CallStart [], StartCleanupDone, StartProbeDone False True True,
              CallRestart [], RestartCleanupDone, RestartSettleDone [],
              StartCleanupDone, StartProbeDone False True True] ready)
      = [Cleanup [], Spawn 0, RestartKill, Cleanup [], RestartStop, Signal 0 SIGTERM,
         RestartStart, Cleanup [], Spawn 1]
   \<and> killTimers (run [CallStart [], StartCleanupDone, StartProbeDone False True True,
              CallRestart [], RestartCleanupDone, RestartSettleDone [],
              StartCleanupDone, StartProbeDone False True True] ready) = 1"
  by (simp add: ready_def supervisor_defs)

lemma restart_inv_step: "restart_inv s \<Longrightarrow> restart_inv (step e s)"
  by (cases e) (auto simp: restart_inv_def supervisor_defs Let_def split: option.splits)

lemma restart_inv_ready: "restart_inv ready"
  by (simp add: restart_inv_def ready_def)

text \<open>The order of the marks in the effects: a step appends a few effects to the old
  ones, so a prefix of the new effects is a prefix of the old ones or all of the old ones
  followed by the first few new ones.\<close>

lemma phases_ok_take_append:
  assumes old: "\<forall>n. phases_ok (take n xs)"
    and new: "\<And>k. 0 < k \<Longrightarrow> k \<le> length ys \<Longrightarrow> phases_ok (xs @ take k ys)"
  shows "phases_ok (take n (xs @ ys))"
proof (cases "n \<le> length xs")
  case True
  then show ?thesis using old by simp
next
  case False
  then have "take n (xs @ ys) = xs @ take (min (n - length xs) (length ys)) ys"
    by (simp add: min_def)
  moreover have "phases_ok (xs @ take (min (n - length xs) (length ys)) ys)"
  proof (cases "ys = []")
    case True
    with old [rule_format, of "length xs"] show ?thesis by simp
  next
    case nonempty: False
    with False show ?thesis by (intro new) auto
  qed
  ultimately show ?thesis by simp
qed

lemma count_list_take_zero: "count_list ys x = 0 \<Longrightarrow> count_list (take k ys) x = 0"
  by (induction ys arbitrary: k) (auto simp: take_Cons' split: if_splits)

lemma phases_ok_take_plain:
  assumes old: "\<forall>n. phases_ok (take n xs)" and plain: "no_phase ys"
  shows "phases_ok (take n (xs @ ys))"
proof (rule phases_ok_take_append [OF old])
  fix k :: nat
  from old [rule_format, of "length xs"] have "phases_ok xs" by simp
  with plain show "phases_ok (xs @ take k ys)"
    by (simp add: phases_ok_def no_phase_def count_list_take_zero)
qed

lemma plain_step:
  "\<forall>ks. e \<noteq> CallRestart ks \<Longrightarrow> e \<noteq> RestartCleanupDone \<Longrightarrow> \<forall>ks. e \<noteq> RestartSettleDone ks \<Longrightarrow>
   \<exists>ys. effects (step e s) = effects s @ ys \<and> no_phase ys"
  by (cases e) (auto simp: supervisor_defs no_phase_def Let_def split: option.splits)

lemma restart_step_effects:
  "effects (step (CallRestart ks) s)
     = effects s @ [RestartKill, Cleanup (filter (\<lambda>p. p \<in> set ks) (live s))]"
  "0 < restartsInCleanup s \<Longrightarrow> effects (step RestartCleanupDone s)
     = effects s @ RestartStop # (case backendProcess s of None \<Rightarrow> [] | Some p \<Rightarrow> [Signal p SIGTERM])"
  "0 < restartsInSettle s \<Longrightarrow> effects (step (RestartSettleDone ks) s)
     = effects s @ [RestartStart, Cleanup (filter (\<lambda>p. p \<in> set ks) (live s))]"
  by (auto simp: supervisor_defs split: option.splits)

lemma take_two: "0 < k \<Longrightarrow> take k [a, b] = (if k = 1 then [a] else [a, b])"
  by (cases k) (auto simp: take_Cons')

lemma prefixes_step:
  assumes inv: "restart_inv s" and old: "\<forall>n. phases_ok (take n (effects s))"
  shows "phases_ok (take n (effects (step e s)))"
proof -
  from old [rule_format, of "length (effects s)"] have whole: "phases_ok (effects s)" by simp
  consider (kill) ks where "e = CallRestart ks" | (stop) "e = RestartCleanupDone"
    | (start) ks where "e = RestartSettleDone ks"
    | (plain) "\<forall>ks. e \<noteq> CallRestart ks" "e \<noteq> RestartCleanupDone" "\<forall>ks. e \<noteq> RestartSettleDone ks"
    by blast
  then show ?thesis
  proof cases
    case kill
    show ?thesis unfolding kill restart_step_effects(1)
      by (rule phases_ok_take_append [OF old])
         (use whole in \<open>auto simp: take_two phases_ok_def\<close>)
  next
    case stop
    show ?thesis
    proof (cases "restartsInCleanup s = 0")
      case True
      with stop old show ?thesis by simp
    next
      case False
      then have pos: "0 < restartsInCleanup s" by simp
      show ?thesis unfolding stop restart_step_effects(2) [OF pos]
        by (rule phases_ok_take_append [OF old])
           (use whole inv pos in \<open>auto simp: take_two take_Cons' phases_ok_def restart_inv_def
              split: option.splits\<close>)
    qed
  next
    case start
    show ?thesis
    proof (cases "restartsInSettle s = 0")
      case True
      with start old show ?thesis by simp
    next
      case False
      then have pos: "0 < restartsInSettle s" by simp
      show ?thesis unfolding start restart_step_effects(3) [OF pos]
        by (rule phases_ok_take_append [OF old])
           (use whole inv pos in \<open>auto simp: take_two phases_ok_def restart_inv_def\<close>)
    qed
  next
    case plain
    from plain_step [OF plain] obtain ys where "effects (step e s) = effects s @ ys" "no_phase ys"
      by blast
    then show ?thesis using phases_ok_take_plain [OF old] by simp
  qed
qed

lemma prefixes_run:
  "restart_inv s \<Longrightarrow> \<forall>n. phases_ok (take n (effects s)) \<Longrightarrow>
   restart_inv (run es s) \<and> (\<forall>n. phases_ok (take n (effects (run es s))))"
proof (induction es arbitrary: s)
  case Nil
  then show ?case by simp
next
  case (Cons e es)
  have "restart_inv (step e s)"
    using Cons.prems(1) by (rule restart_inv_step)
  moreover have "\<forall>n. phases_ok (take n (effects (step e s)))"
    using prefixes_step [OF Cons.prems] by blast
  ultimately show ?case using Cons.IH by simp
qed

lemma prefixes_ready:
  "restart_inv (run es ready) \<and> (\<forall>n. phases_ok (take n (effects (run es ready))))"
  by (rule prefixes_run) (simp_all add: restart_inv_ready, simp add: ready_def phases_ok_def)

text \<open>
  Claim C4, amended: \<^verbatim>\<open>restartBackend\<close> goes through orphan cleanup, \<^verbatim>\<open>stopBackend\<close>, a
  fixed 3000 ms delay and \<^verbatim>\<open>startBackend\<close> in this order, and the start does not wait for
  the prior worker's exit or for a force-kill.

  Run on its own from any state, a restart does this and nothing else: the cleanup
  commands with their 2000 ms wait; SIGTERM to the child the handle names and its
  10000 ms timeout, if the handle names one, and the handle cleared; the 3000 ms delay;
  the start's cleanup with its 2000 ms wait. No process is spawned in these turns.

  Among any other events: the turn in which a restart reaches \<^verbatim>\<open>killExistingBackends\<close>,
  \<^verbatim>\<open>stopBackend\<close> or \<^verbatim>\<open>startBackend\<close> does what that function does in the state it finds;
  in every prefix of what has been done, restarts have reached \<^verbatim>\<open>startBackend\<close> at most as
  often as \<^verbatim>\<open>stopBackend\<close>, and \<^verbatim>\<open>stopBackend\<close> at most as often as their cleanup; the
  restarts that have reached \<^verbatim>\<open>stopBackend\<close> are those that have reached \<^verbatim>\<open>startBackend\<close>
  plus those in their delay, and the restarts that have run their cleanup are those that
  have reached \<^verbatim>\<open>stopBackend\<close> plus those in their cleanup wait.
\<close>

theorem restart_phases_in_order:
  "effects (run [CallRestart ks, RestartCleanupDone, RestartSettleDone ks'] s)
       = effects s @ [RestartKill, Cleanup (filter (\<lambda>p. p \<in> set ks) (live s)), RestartStop]
         @ (case backendProcess s of None \<Rightarrow> [] | Some p \<Rightarrow> [Signal p SIGTERM])
         @ [RestartStart,
            Cleanup (filter (\<lambda>p. p \<in> set ks') (filter (\<lambda>p. p \<notin> set ks) (live s)))]
   \<and> timeouts (run [CallRestart ks, RestartCleanupDone, RestartSettleDone ks'] s)
       = timeouts s @ [2000] @ (case backendProcess s of None \<Rightarrow> [] | Some p \<Rightarrow> [10000])
         @ [3000, 2000]
   \<and> backendProcess (run [CallRestart ks, RestartCleanupDone, RestartSettleDone ks'] s) = None
   \<and> killTimers (run [CallRestart ks, RestartCleanupDone, RestartSettleDone ks'] s)
       = killTimers s + (case backendProcess s of None \<Rightarrow> 0 | Some p \<Rightarrow> 1)
   \<and> spawned (run [CallRestart ks, RestartCleanupDone, RestartSettleDone ks'] s) = spawned s
   \<and> startsInCleanup (run [CallRestart ks, RestartCleanupDone, RestartSettleDone ks'] s)
       = startsInCleanup s + 1
   \<and> effects (step (CallRestart ks) s)
       = effects s @ [RestartKill, Cleanup (filter (\<lambda>p. p \<in> set ks) (live s))]
   \<and> live (step (CallRestart ks) s) = filter (\<lambda>p. p \<notin> set ks) (live s)
   \<and> restartsInCleanup (step (CallRestart ks) s) = restartsInCleanup s + 1
   \<and> (0 < restartsInCleanup s \<longrightarrow>
        effects (step RestartCleanupDone s)
          = effects s @ RestartStop
              # (case backendProcess s of None \<Rightarrow> [] | Some p \<Rightarrow> [Signal p SIGTERM])
        \<and> timeouts (step RestartCleanupDone s)
          = timeouts s @ (case backendProcess s of None \<Rightarrow> [] | Some p \<Rightarrow> [10000]) @ [3000]
        \<and> backendProcess (step RestartCleanupDone s) = None
        \<and> live (step RestartCleanupDone s) = live s
        \<and> restartsInSettle (step RestartCleanupDone s) = restartsInSettle s + 1)
   \<and> (0 < restartsInSettle s \<longrightarrow>
        effects (step (RestartSettleDone ks) s)
          = effects s @ [RestartStart, Cleanup (filter (\<lambda>p. p \<in> set ks) (live s))]
        \<and> live (step (RestartSettleDone ks) s) = filter (\<lambda>p. p \<notin> set ks) (live s)
        \<and> spawned (step (RestartSettleDone ks) s) = spawned s
        \<and> startsInCleanup (step (RestartSettleDone ks) s) = startsInCleanup s + 1)
   \<and> count_list (take n (effects (run es ready))) RestartStart
     \<le> count_list (take n (effects (run es ready))) RestartStop
   \<and> count_list (take n (effects (run es ready))) RestartStop
     \<le> count_list (take n (effects (run es ready))) RestartKill
   \<and> count_list (effects (run es ready)) RestartStop
     = count_list (effects (run es ready)) RestartStart + restartsInSettle (run es ready)
   \<and> count_list (effects (run es ready)) RestartKill
     = count_list (effects (run es ready)) RestartStop + restartsInCleanup (run es ready)"
proof -
  from prefixes_ready [of es] have "restart_inv (run es ready)"
    and "phases_ok (take n (effects (run es ready)))" by simp_all
  then show ?thesis
    by (simp add: restart_inv_def phases_ok_def) (simp add: supervisor_defs split: option.splits)
qed

theorem restart_phases_in_order_witness:
  "backendProcess (run [CallStart [], StartCleanupDone, StartProbeDone False True True] ready) = Some 0
   \<and> effects (run [CallRestart [], RestartCleanupDone, RestartSettleDone []]
        (run [CallStart [], StartCleanupDone, StartProbeDone False True True] ready))
       = [Cleanup [], Spawn 0, RestartKill, Cleanup [], RestartStop, Signal 0 SIGTERM,
          RestartStart, Cleanup []]
   \<and> timeouts (run [CallRestart [], RestartCleanupDone, RestartSettleDone []]
        (run [CallStart [], StartCleanupDone, StartProbeDone False True True] ready))
       = [2000, 2000, 10000, 3000, 2000]
   \<and> 0 < restartsInCleanup (run [CallStart [], StartCleanupDone, StartProbeDone False True True,
                                  CallRestart []] ready)
   \<and> effects (step RestartCleanupDone
        (run [CallStart [], StartCleanupDone, StartProbeDone False True True, CallRestart []] ready))
       = [Cleanup [], Spawn 0, RestartKill, Cleanup [], RestartStop, Signal 0 SIGTERM]
   \<and> 0 < restartsInSettle (run [CallStart [], StartCleanupDone, StartProbeDone False True True,
                                 CallRestart [], RestartCleanupDone] ready)
   \<and> effects (step (RestartSettleDone [])
        (run [CallStart [], StartCleanupDone, StartProbeDone False True True,
              CallRestart [], RestartCleanupDone] ready))
       = [Cleanup [], Spawn 0, RestartKill, Cleanup [], RestartStop, Signal 0 SIGTERM,
          RestartStart, Cleanup []]
   \<and> count_list (take 5 (effects (run [CallStart [], StartCleanupDone,
          StartProbeDone False True True, CallRestart [], RestartCleanupDone,
          RestartSettleDone []] ready))) RestartStop = 1"
proof -
  have h1: "0 < restartsInCleanup (run [CallStart [], StartCleanupDone,
      StartProbeDone False True True, CallRestart []] ready)"
    by (simp add: ready_def supervisor_defs)
  have h2: "0 < restartsInSettle (run [CallStart [], StartCleanupDone,
      StartProbeDone False True True, CallRestart [], RestartCleanupDone] ready)"
    by (simp add: ready_def supervisor_defs)
  show ?thesis
    using h1 h2
      restart_phases_in_order [of "[]" "[]"
        "run [CallStart [], StartCleanupDone, StartProbeDone False True True] ready"]
      restart_phases_in_order [of _ _
        "run [CallStart [], StartCleanupDone, StartProbeDone False True True, CallRestart []] ready"]
      restart_phases_in_order [of "[]" _
        "run [CallStart [], StartCleanupDone, StartProbeDone False True True,
              CallRestart [], RestartCleanupDone] ready" 5
        "[CallStart [], StartCleanupDone, StartProbeDone False True True, CallRestart [],
          RestartCleanupDone, RestartSettleDone []]"]
    by (simp add: ready_def supervisor_defs)
qed




text \<open>
  Claim C6, as stated: whenever all native attempts have failed, the whole candidate list
  is retried over the fallback transport before the worker is declared unreachable, for
  every liveness determination. At the first run below \<^verbatim>\<open>startBackend\<close> takes the negative
  native probe as final and spawns, and no fallback request was sent. At the second run
  the tray refresh does use the fallback, and sends one request, to localhost, while the
  candidate list has two hosts.
\<close>

theorem start_decides_without_fallback:
  "effects (run [CallStart [], StartCleanupDone, StartProbeDone False True True] ready)
     = [Cleanup [], Spawn 0]
   \<and> effects (run [Tick, TrayProbeDone False (AxiosStatus 200)] ready)
     = [AxiosGet ''http://localhost:7717/health'', TrayStatus True]
   \<and> hostnames = [''127.0.0.1'', ''localhost'']"
  by (simp add: ready_def supervisor_defs hostnames_def)

text \<open>
  Claim C6, amended: only the tray refresh (\<^verbatim>\<open>updateTrayMenu\<close>) has a fallback. When its
  native probe says false it sends one axios request to http://localhost:7717/health,
  that one host and not the candidate list, and shows the worker as connected exactly
  when that request returns status 200. \<^verbatim>\<open>checkBackendStatus\<close> returns the native probe's
  result as it is and sends no fallback request before returning.
\<close>

theorem fallback_only_in_tray_refresh:
  "effects (updateTrayMenu_resume native ax s)
     = effects s @ (if native then [TrayStatus True]
                    else [AxiosGet ''http://localhost:7717/health'',
                          TrayStatus (ax = AxiosStatus 200)])
   \<and> fst (checkBackendStatus native s) = native
   \<and> effects (snd (checkBackendStatus native s)) = effects s"
  by (cases ax) (simp_all add: supervisor_defs)

theorem fallback_only_in_tray_refresh_witness:
  "effects (updateTrayMenu_resume False (AxiosStatus 200) ready)
     = [AxiosGet ''http://localhost:7717/health'', TrayStatus True]
   \<and> fst (checkBackendStatus False ready) = False
   \<and> effects (snd (checkBackendStatus False ready)) = []"
  using fallback_only_in_tray_refresh [of False "AxiosStatus 200" ready]
  by (simp add: ready_def)

text \<open>
  Claim C7, as stated: when the executable or the entry script is missing, start fails
  with an error surfaced to the user. At the first run below the Python executable is
  missing and there is no main window: no error box is shown. At the second run the
  executable is missing and a worker answers the probe: the call ends before the file
  checks, and no error box is shown either.
\<close>

theorem missing_python_can_go_unreported:
  "effects (run [CallStart [], StartCleanupDone, StartProbeDone False False True]
              (ready\<lparr>mainWindow := False\<rparr>)) = [Cleanup []]
   \<and> effects (run [CallStart [], StartCleanupDone, StartProbeDone True False True] ready)
      = [Cleanup []]"
  by (simp add: ready_def supervisor_defs)

text \<open>
  Claim C7, amended: the files are checked after the cleanup wait and a negative probe,
  not in the call itself, whose own turn only runs the cleanup. When \<^verbatim>\<open>startBackend\<close> then
  finds the Python executable or main.py missing, it spawns no process, leaves the handle
  and the running workers as they are, and ends without scheduling another attempt. It
  shows an error box (Python Error for the executable, Backend Error for main.py) when
  the main window exists, and none otherwise.
\<close>

theorem missing_files_spawn_nothing:
  "0 < startsInProbe s \<Longrightarrow> \<not> pythonExists \<or> \<not> mainPyExists \<Longrightarrow>
     effects (startBackend ks t) = effects t @ [Cleanup (filter (\<lambda>p. p \<in> set ks) (live t))]
     \<and> spawned (step (StartProbeDone False pythonExists mainPyExists) s) = spawned s
     \<and> live (step (StartProbeDone False pythonExists mainPyExists) s) = live s
     \<and> backendProcess (step (StartProbeDone False pythonExists mainPyExists) s) = backendProcess s
     \<and> startsInCleanup (step (StartProbeDone False pythonExists mainPyExists) s) = startsInCleanup s
     \<and> startsInProbe (step (StartProbeDone False pythonExists mainPyExists) s) = startsInProbe s - 1
     \<and> effects (step (StartProbeDone False pythonExists mainPyExists) s)
         = effects s @ (if mainWindow s
                        then [ErrorBox (if \<not> pythonExists then ''Python Error'' else ''Backend Error'')]
                        else [])"
  by (auto simp: supervisor_defs)

theorem missing_files_spawn_nothing_witness:
  "0 < startsInProbe (run [CallStart [], StartCleanupDone] ready)
   \<and> spawned (step (StartProbeDone False True False) (run [CallStart [], StartCleanupDone] ready)) = 0
   \<and> backendProcess (step (StartProbeDone False True False) (run [CallStart [], StartCleanupDone] ready)) = None
   \<and> effects (step (StartProbeDone False True False) (run [CallStart [], StartCleanupDone] ready))
       = [Cleanup [], ErrorBox ''Backend Error'']"
proof -
  have h: "0 < startsInProbe (run [CallStart [], StartCleanupDone] ready)"
    by (simp add: ready_def supervisor_defs)
  show ?thesis
    using h missing_files_spawn_nothing [OF h, of True False "[]" ready]
    by (simp add: ready_def supervisor_defs)
qed

text \<open>
  Claim C8, as stated: a tick that fires while the previous tick's probe is unresolved is
  skipped, so that one probe at most is in flight. Two ticks with no probe resolved in
  between leave two probes in flight; so does a tick that fires while the tray refresh
  started by \<^verbatim>\<open>checkBackendStatus\<close> is unresolved.
\<close>

theorem ticks_overlap:
  "trayProbes (run [Tick, Tick] ready) = 2
   \<and> trayProbes (run [CallStart [], StartCleanupDone, StartProbeDone False True True, Tick] ready) = 2"
  by (simp add: ready_def supervisor_defs)

lemma ticks_add_probes:
  "tray s \<and> \<not> trayDestroyed s \<Longrightarrow> trayProbes (run (replicate n Tick) s) = trayProbes s + n"
proof (induction n arbitrary: s)
  case 0
  then show ?case by simp
next
  case (Suc n)
  have "tray (step Tick s) \<and> \<not> trayDestroyed (step Tick s)"
    using Suc.prems by (simp add: updateTrayMenu_def)
  then have "trayProbes (run (replicate n Tick) (step Tick s)) = trayProbes (step Tick s) + n"
    by (rule Suc.IH)
  with Suc.prems show ?case by (simp add: updateTrayMenu_def)
qed

text \<open>
  Claim C8, amended: the periodic tick calls \<^verbatim>\<open>updateTrayMenu\<close> unconditionally. With a
  tray that is not destroyed, every tick starts one more probe, however many are in
  flight, so that \<open>n\<close> ticks in a row add \<open>n\<close> probes; without such a tray, the tick does
  nothing.
\<close>

theorem tick_always_probes:
  "(tray s \<and> \<not> trayDestroyed s \<longrightarrow>
      step Tick s = s\<lparr>trayProbes := trayProbes s + 1\<rparr>
      \<and> trayProbes (run (replicate n Tick) s) = trayProbes s + n)
   \<and> (\<not> (tray s \<and> \<not> trayDestroyed s) \<longrightarrow> step Tick s = s)"
  by (simp add: ticks_add_probes) (simp add: updateTrayMenu_def)

theorem tick_always_probes_witness:
  "tray (run [Tick] ready) \<and> \<not> trayDestroyed (run [Tick] ready)
   \<and> trayProbes (run [Tick] ready) = 1
   \<and> trayProbes (step Tick (run [Tick] ready)) = 2
   \<and> trayProbes (run (replicate 3 Tick) (run [Tick] ready)) = 4"
  using tick_always_probes [of "run [Tick] ready" 3]
  by (simp add: ready_def supervisor_defs)

text \<open>
  Claim C10: \<^verbatim>\<open>stopBackend\<close> clears the handle before it returns, while the worker is
  still running; a second \<^verbatim>\<open>stopBackend\<close> changes nothing; and the 10-second callback reads
  the handle when it fires, so that its SIGKILL goes to the child the handle names then,
  and to none when the handle is clear. In the witness, worker 0 is stopped, worker 1 is
  started, and the callback of the stop sends SIGKILL to worker 1.
\<close>

theorem stop_clears_handle_at_once:
  "backendProcess (stopBackend s) = None
   \<and> live (stopBackend s) = live s
   \<and> stopBackend (stopBackend s) = stopBackend s
   \<and> (0 < killTimers s \<longrightarrow>
        effects (step ForceKillTimeout s)
          = effects s @ (case backendProcess s of None \<Rightarrow> [] | Some q \<Rightarrow> [Signal q SIGKILL]))"
  by (auto simp: supervisor_defs split: option.splits)

theorem stop_clears_handle_at_once_witness:
  "0 < killTimers (run [CallStart [], StartCleanupDone, StartProbeDone False True True, CallStop,
                        CallStart [], StartCleanupDone, StartProbeDone False True True] ready)
   \<and> live (run [CallStart [], StartCleanupDone, StartProbeDone False True True, CallStop,
                 CallStart [], StartCleanupDone, StartProbeDone False True True] ready) = [0, 1]
   \<and> effects (step ForceKillTimeout
        (run [CallStart [], StartCleanupDone, StartProbeDone False True True, CallStop,
              CallStart [], StartCleanupDone, StartProbeDone False True True] ready))
       = [Cleanup [], Spawn 0, Signal 0 SIGTERM, Cleanup [], Spawn 1, Signal 1 SIGKILL]"
proof -
  have h: "0 < killTimers (run [CallStart [], StartCleanupDone, StartProbeDone False True True, CallStop,
                        CallStart [], StartCleanupDone, StartProbeDone False True True] ready)"
    by (simp add: ready_def supervisor_defs)
  show ?thesis
    using h stop_clears_handle_at_once [of
        "run [CallStart [], StartCleanupDone, StartProbeDone False True True, CallStop,
              CallStart [], StartCleanupDone, StartProbeDone False True True] ready"]
    by (simp add: ready_def supervisor_defs)
qed

end
